theory Spec2Isabelle
  imports Complex_Main
begin

section \<open>The asynchronous image loader of cineMaticAnalyser.py\<close>

text \<open>
  The theory embeds \<^verbatim>\<open>ImageCacheLoader\<close> (the class with the cache, the request queue,
  the resolver \<^verbatim>\<open>_fetch_image\<close> and the loop \<^verbatim>\<open>_worker\<close>) together with
  \<^verbatim>\<open>ThemeManager.get\<close>. Python exceptions are values of \<open>error\<close>; a call that may
  raise returns \<open>error + 'a\<close> and every \<^verbatim>\<open>try/except\<close> of the source is a case
  distinction on that sum. The network, the file system and the image decoder are fields
  of the record \<open>env\<close>: \<open>requests_get\<close> stands for the import of \<^verbatim>\<open>requests\<close> and the
  call \<^verbatim>\<open>requests.get(url, timeout=6)\<close>, \<open>image_open_bytes\<close> and \<open>image_open\<close> for
  \<^verbatim>\<open>Image.open\<close> on the downloaded bytes and on a path, \<open>path_exists\<close> and \<open>path_join\<close>
  for \<^verbatim>\<open>os.path.exists\<close> and \<^verbatim>\<open>os.path.join\<close>, \<open>load_ok\<close> says whether the pixel data
  of an opened image can be decoded, and \<open>mask_ok\<close> whether the drawing primitive for the
  rounded mask is available. Strings are sequences of 8-bit characters.
\<close>

subsection \<open>Data\<close>

datatype error =
  ImportError | RequestException | OSError | ValueError | KeyError
  | ZeroDivisionError | TclError | Empty

text \<open>A decoded image as PIL hands it out: its size and where it was opened from.\<close>

record image =
  iwidth :: int
  iheight :: int
  origin :: string

text \<open>The reply of \<^verbatim>\<open>requests.get\<close>.\<close>

record response =
  status_code :: int
  content :: string

record env =
  requests_get :: "string \<Rightarrow> error + response"
  image_open_bytes :: "string \<Rightarrow> error + image"
  path_exists :: "string \<Rightarrow> bool"
  image_open :: "string \<Rightarrow> error + image"
  path_join :: "string \<Rightarrow> string \<Rightarrow> string"
  load_ok :: "image \<Rightarrow> bool"
  mask_ok :: bool

subsection \<open>The resolver: \<^verbatim>\<open>_fetch_image\<close>\<close>

definition startswith :: "string \<Rightarrow> string \<Rightarrow> bool" where
  "startswith s p = (take (length p) s = p)"

text \<open>
  First \<^verbatim>\<open>try\<close> block: the body either returns an image, raises, or falls through
  (\<open>Inr None\<close>).
\<close>

definition network_step :: "env \<Rightarrow> string \<Rightarrow> error + image option" where
  "network_step e url =
     (if url \<noteq> [] \<and> startswith url ''http'' then
        (case requests_get e url of
           Inl x \<Rightarrow> Inl x
         | Inr resp \<Rightarrow>
             if status_code resp = 200 then
               (case image_open_bytes e (content resp) of
                  Inl x \<Rightarrow> Inl x
                | Inr img \<Rightarrow> Inr (Some img))
             else Inr None)
      else Inr None)"

text \<open>Second \<^verbatim>\<open>try\<close> block: the local path.\<close>

definition local_step :: "env \<Rightarrow> string \<Rightarrow> error + image option" where
  "local_step e url =
     (if url \<noteq> [] \<and> path_exists e url then
        (case image_open e url of Inl x \<Rightarrow> Inl x | Inr img \<Rightarrow> Inr (Some img))
      else Inr None)"

text \<open>The body of the \<^verbatim>\<open>try\<close> inside the loop over \<^verbatim>\<open>self.fallback_paths\<close>.\<close>

definition fallback_try :: "env \<Rightarrow> string \<Rightarrow> error + image option" where
  "fallback_try e fp =
     (if path_exists e fp then
        (case image_open e fp of Inl x \<Rightarrow> Inl x | Inr img \<Rightarrow> Inr (Some img))
      else Inr None)"

text \<open>
  The \<^verbatim>\<open>for\<close> loop: an exception is caught and the loop continues, an entry that does
  not exist is skipped, and after the last entry the function returns \<^verbatim>\<open>None\<close>.
\<close>

fun fallback_loop :: "env \<Rightarrow> string list \<Rightarrow> error + image option" where
  "fallback_loop e [] = Inr None"
| "fallback_loop e (fp # fps) =
     (case fallback_try e fp of
        Inr (Some img) \<Rightarrow> Inr (Some img)
      | Inr None \<Rightarrow> fallback_loop e fps
      | Inl x \<Rightarrow> fallback_loop e fps)"

definition fetch_image :: "env \<Rightarrow> string list \<Rightarrow> string \<Rightarrow> error + image option" where
  "fetch_image e fallback_paths url =
     (case network_step e url of
        Inr (Some img) \<Rightarrow> Inr (Some img)
      | _ \<Rightarrow>
        (case local_step e url of
           Inr (Some img) \<Rightarrow> Inr (Some img)
         | _ \<Rightarrow> fallback_loop e fallback_paths))"

subsection \<open>A concrete environment\<close>

text \<open>
  One reachable poster, one URL answered with 404, one URL that times out, a workspace
  in which only the second fallback asset exists, a readable local poster, a local
  banner of 1000 x 1 pixels and a local file that is no image.
\<close>

definition demo_get :: "string \<Rightarrow> error + response" where
  "demo_get url =
     (if url = ''http://good/img.jpg'' then Inr \<lparr>status_code = 200, content = ''jpeg-600x900''\<rparr>
      else if url = ''http://gone/img.jpg'' then Inr \<lparr>status_code = 404, content = []\<rparr>
      else Inl RequestException)"

definition demo_open_bytes :: "string \<Rightarrow> error + image" where
  "demo_open_bytes b =
     (if b = ''jpeg-600x900'' then Inr \<lparr>iwidth = 600, iheight = 900, origin = ''http''\<rparr>
      else Inl OSError)"

definition demo_exists :: "string \<Rightarrow> bool" where
  "demo_exists p = (p = ''ws/404.webp'' \<or> p = ''posters/a.png''
     \<or> p = ''posters/banner.png'' \<or> p = ''notes.txt'')"

definition demo_open :: "string \<Rightarrow> error + image" where
  "demo_open p =
     (if p = ''ws/404.webp'' then Inr \<lparr>iwidth = 400, iheight = 300, origin = ''ws/404.webp''\<rparr>
      else if p = ''posters/a.png'' then Inr \<lparr>iwidth = 300, iheight = 300, origin = ''posters/a.png''\<rparr>
      else if p = ''posters/banner.png''
        then Inr \<lparr>iwidth = 1000, iheight = 1, origin = ''posters/banner.png''\<rparr>
      else Inl OSError)"

definition demo_env :: env where
  "demo_env = \<lparr>requests_get = demo_get, image_open_bytes = demo_open_bytes,
     path_exists = demo_exists, image_open = demo_open,
     path_join = (\<lambda>a b. a @ ''/'' @ b), load_ok = (\<lambda>_. True), mask_ok = True\<rparr>"

text \<open>
  The same environment with a first fallback asset whose header can be read
  (\<^verbatim>\<open>Image.open\<close> returns) and whose pixel data is damaged.
\<close>

definition lazy_open :: "string \<Rightarrow> error + image" where
  "lazy_open p =
     (if p = ''ws/INF.png'' then Inr \<lparr>iwidth = 512, iheight = 512, origin = ''ws/INF.png''\<rparr>
      else demo_open p)"

definition lazy_env :: env where
  "lazy_env = demo_env\<lparr>path_exists := (\<lambda>p. p = ''ws/INF.png'' \<or> demo_exists p),
     image_open := lazy_open, load_ok := (\<lambda>img. origin img \<noteq> ''ws/INF.png'')\<rparr>"

text \<open>The same environment with neither fallback asset in the workspace.\<close>

definition bare_env :: env where
  "bare_env = demo_env\<lparr>path_exists := (\<lambda>p. p = ''posters/a.png'')\<rparr>"

subsection \<open>\<^verbatim>\<open>ThemeManager\<close>\<close>

record theme_manager =
  current_theme :: string
  themes :: "string \<rightharpoonup> (string \<rightharpoonup> string)"

text \<open>\<^verbatim>\<open>self.themes[self.current_theme][key]\<close>: a missing key raises \<^verbatim>\<open>KeyError\<close>.\<close>

definition theme_get :: "theme_manager \<Rightarrow> string \<Rightarrow> error + string" where
  "theme_get th key =
     (case themes th (current_theme th) of
        None \<Rightarrow> Inl KeyError
      | Some palette \<Rightarrow> (case palette key of None \<Rightarrow> Inl KeyError | Some v \<Rightarrow> Inr v))"

definition toggle :: "theme_manager \<Rightarrow> theme_manager" where
  "toggle th = th\<lparr>current_theme := (if current_theme th = ''dark'' then ''light'' else ''dark'')\<rparr>"

text \<open>The two palettes that \<^verbatim>\<open>ThemeManager.__init__\<close> installs.\<close>

definition dark_palette :: "(string \<times> string) list" where
  "dark_palette = [(''bg'', ''#121212''), (''panel'', ''#1E1E1E''), (''text'', ''#FFFFFF''),
     (''muted'', ''#B3B3B3''), (''accent'', ''#E50914''), (''accent_hover'', ''#ff1a24''),
     (''card'', ''#181818''), (''border'', ''#2A2A2A''), (''input'', ''#2A2A2A'')]"

definition light_palette :: "(string \<times> string) list" where
  "light_palette = [(''bg'', ''#F5F5F5''), (''panel'', ''#FFFFFF''), (''text'', ''#111111''),
     (''muted'', ''#333333''), (''accent'', ''#1F51FF''), (''accent_hover'', ''#3b66ff''),
     (''card'', ''#FFFFFF''), (''border'', ''#E0E0E0''), (''input'', ''#FFFFFF'')]"

definition init_theme :: theme_manager where
  "init_theme = \<lparr>current_theme = ''dark'',
     themes = map_of [(''dark'', map_of dark_palette), (''light'', map_of light_palette)]\<rparr>"

text \<open>A theme manager whose only palette gives the card colour \<open>c\<close>.\<close>

definition theme_with_card :: "string \<Rightarrow> theme_manager" where
  "theme_with_card c = \<lparr>current_theme = ''dark'',
     themes = map_of [(''dark'', map_of [(''card'', c)])]\<rparr>"

subsection \<open>Decoding the card colour\<close>

text \<open>
  Python's \<^verbatim>\<open>int(s, 16)\<close>: surrounding white space is stripped, a sign and the prefix
  \<^verbatim>\<open>0x\<close> are optional, single underscores may separate digits, and anything else
  raises \<^verbatim>\<open>ValueError\<close>. The white space it strips is tab, line feed, vertical tab, form
  feed, carriage return and space, and of the characters above 127 the next-line
  character and the no-break space; the separators 28 to 31 are not stripped.
\<close>

definition py_isspace :: "char \<Rightarrow> bool" where
  "py_isspace c = ((of_char c :: nat) \<in> set [9, 10, 11, 12, 13, 32, 133, 160])"

definition hexval :: "char \<Rightarrow> int option" where
  "hexval c =
     (let n = (of_char c :: nat) in
      if 48 \<le> n \<and> n \<le> 57 then Some (int n - 48)
      else if 97 \<le> n \<and> n \<le> 102 then Some (int n - 87)
      else if 65 \<le> n \<and> n \<le> 70 then Some (int n - 55)
      else None)"

text \<open>
  \<open>digits16 acc und dig cs\<close>: \<open>und\<close> says that an underscore may come next, \<open>dig\<close>
  that the text read so far ends in a digit.
\<close>

fun digits16 :: "int \<Rightarrow> bool \<Rightarrow> bool \<Rightarrow> string \<Rightarrow> int option" where
  "digits16 acc und dig [] = (if dig then Some acc else None)"
| "digits16 acc und dig (c # cs) =
     (if c = CHR ''_'' then (if und then digits16 acc False False cs else None)
      else (case hexval c of
              None \<Rightarrow> None
            | Some v \<Rightarrow> digits16 (16 * acc + v) True True cs))"

definition py_strip :: "string \<Rightarrow> string" where
  "py_strip s = rev (dropWhile py_isspace (rev (dropWhile py_isspace s)))"

definition py_int16 :: "string \<Rightarrow> error + int" where
  "py_int16 s =
     (let t = py_strip s;
          sgn = (if take 1 t = ''-'' then - 1 else 1);
          u = (if take 1 t = ''-'' \<or> take 1 t = ''+'' then drop 1 t else t);
          r = (if take 2 u = ''0x'' \<or> take 2 u = ''0X''
               then digits16 0 True False (drop 2 u)
               else digits16 0 False False u)
      in case r of None \<Rightarrow> Inl ValueError | Some v \<Rightarrow> Inr (sgn * v))"

text \<open>
  \<^verbatim>\<open>tuple(int(bg_hex[i:i+2], 16) for i in (1, 3, 5)) if bg_hex.startswith('#') else (24, 24, 24)\<close>
\<close>

definition bg_rgb_of :: "string \<Rightarrow> error + int \<times> int \<times> int" where
  "bg_rgb_of bg_hex =
     (if startswith bg_hex ''#'' then
        (case py_int16 (take 2 (drop 1 bg_hex)) of
           Inl x \<Rightarrow> Inl x
         | Inr r \<Rightarrow>
        (case py_int16 (take 2 (drop 3 bg_hex)) of
           Inl x \<Rightarrow> Inl x
         | Inr g \<Rightarrow>
        (case py_int16 (take 2 (drop 5 bg_hex)) of
           Inl x \<Rightarrow> Inl x
         | Inr b \<Rightarrow> Inr (r, g, b))))
      else Inr (24, 24, 24))"

subsection \<open>Scale to fit\<close>

text \<open>Python's \<^verbatim>\<open>round\<close>: to the nearest integer, a tie to the even one.\<close>

definition py_round :: "rat \<Rightarrow> int" where
  "py_round x =
     (let f = \<lfloor>x\<rfloor>; d = x - of_int f in
      if d < 1 / 2 then f else if 1 / 2 < d then f + 1
      else if even f then f else f + 1)"

text \<open>
  \<^verbatim>\<open>Image.resize\<close>, the last step of the library's \<^verbatim>\<open>contain\<close>, refuses a size with a
  side below one pixel.
\<close>

definition resize :: "int \<times> int \<Rightarrow> error + int \<times> int" where
  "resize sz = (if fst sz < 1 \<or> snd sz < 1 then Inl ValueError else Inr sz)"

text \<open>
  Modelled from the spec: \<^verbatim>\<open>ImageOps.contain\<close> is a function of the Pillow library and
  not part of the source file, which only calls it (step 2 of the compositor, "scale to
  fit, preserve aspect ratio"). The definition follows the library's algorithm: compare
  the two aspect ratios, keep the target side of the relatively larger dimension and
  round the other side, then resize. The quotients, which the library computes in
  double precision, are exact rationals here. It returns the size of the scaled image.
\<close>

definition contain :: "int \<times> int \<Rightarrow> int \<times> int \<Rightarrow> error + int \<times> int" where
  "contain isize tsize =
     (case (isize, tsize) of ((w, h), (W, H)) \<Rightarrow>
        if h = 0 \<or> H = 0 then Inl ZeroDivisionError
        else
          let im_ratio = (of_int w / of_int h :: rat);
              dest_ratio = (of_int W / of_int H :: rat)
          in if im_ratio \<noteq> dest_ratio then
               if dest_ratio < im_ratio then
                 if w = 0 then Inl ZeroDivisionError
                 else resize (W, py_round (of_int h / of_int w * of_int W))
               else resize (py_round (of_int w / of_int h * of_int H), H)
             else resize (W, H))"

subsection \<open>The compositor (the middle of \<^verbatim>\<open>_worker\<close>)\<close>

text \<open>
  The \<^verbatim>\<open>PhotoImage\<close> the worker builds: its Tk name (a fresh number), the size and
  fill of the background canvas, the image pasted on it with its scaled size and
  position, and whether the rounded alpha mask was applied.
\<close>

record photo =
  pid :: nat
  psize :: "int \<times> int"
  fill :: "int \<times> int \<times> int"
  pasted :: image
  pasted_size :: "int \<times> int"
  paste_pos :: "int \<times> int"
  rounded :: bool

text \<open>
  From \<^verbatim>\<open>target_size = (width, height)\<close> to \<^verbatim>\<open>photo = ImageTk.PhotoImage(background)\<close>.
  \<^verbatim>\<open>convert\<close> decodes the pixel data and raises when the file is damaged;
  \<^verbatim>\<open>Image.new\<close> refuses a negative side; a failure while drawing the mask is caught
  on the spot and leaves the canvas unmasked. \<open>fill\<close> is the colour handed to
  \<^verbatim>\<open>Image.new\<close>. Pasting and the construction of the \<^verbatim>\<open>PhotoImage\<close> are taken to
  succeed.
\<close>

definition composite :: "env \<Rightarrow> theme_manager \<Rightarrow> nat \<Rightarrow> image \<Rightarrow> int \<Rightarrow> int \<Rightarrow> error + photo" where
  "composite e th n img width height =
     (if \<not> load_ok e img then Inl OSError
      else
        (case contain (iwidth img, iheight img) (width, height) of
           Inl x \<Rightarrow> Inl x
         | Inr resized \<Rightarrow>
        (case theme_get th ''card'' of
           Inl x \<Rightarrow> Inl x
         | Inr bg_hex \<Rightarrow>
        (case bg_rgb_of bg_hex of
           Inl x \<Rightarrow> Inl x
         | Inr bg_rgb \<Rightarrow>
             if width < 0 \<or> height < 0 then Inl ValueError
             else Inr \<lparr>pid = n, psize = (width, height), fill = bg_rgb, pasted = img,
                    pasted_size = resized,
                    paste_pos = ((width - fst resized) div 2, (height - snd resized) div 2),
                    rounded = mask_ok e\<rparr>))))"

subsection \<open>The loader and the Tk widgets it writes to\<close>

text \<open>
  A label widget: whether it still exists, the image option Tk displays, and the Python
  attribute \<^verbatim>\<open>image\<close> that keeps the photo alive.
\<close>

record label =
  alive :: bool
  shown :: "photo option"
  image_attr :: "photo option"

text \<open>
  The fields of \<^verbatim>\<open>ImageCacheLoader\<close> (the queue with its counter of unfinished
  tasks), the labels of the interface addressed by number, the number of photos made so
  far, and what the callbacks need. \<^verbatim>\<open>assign\<close> is defined inside \<^verbatim>\<open>_worker\<close> and
  refers to the variables \<^verbatim>\<open>target_label\<close> and \<^verbatim>\<open>photo\<close> of that one running call; a
  Python closure reads such a variable when it runs, not when it is made. So the state
  holds the current values of the two variables (\<open>None\<close> while unbound), and the
  callbacks handed to \<^verbatim>\<open>after\<close> that the Tk main loop has still to run are counted:
  they all do the same.
\<close>

record state =
  cache :: "string \<rightharpoonup> photo"
  queue :: "(string \<times> string \<times> int \<times> int \<times> nat) list"
  unfinished_tasks :: int
  theme :: theme_manager
  fallback_paths :: "string list"
  labels :: "nat \<Rightarrow> label"
  after_queue :: nat
  photo_count :: nat
  target_label_var :: "nat option"
  photo_var :: "photo option"

text \<open>\<^verbatim>\<open>__init__\<close>; \<open>wd\<close> is the directory of the running script.\<close>

definition init_loader :: "env \<Rightarrow> theme_manager \<Rightarrow> string \<Rightarrow> (nat \<Rightarrow> label) \<Rightarrow> state" where
  "init_loader e th wd ls =
     \<lparr>cache = Map.empty, queue = [], unfinished_tasks = 0, theme = th,
      fallback_paths = [path_join e wd ''INF.png'', path_join e wd ''404.webp''],
      labels = ls, after_queue = 0, photo_count = 0,
      target_label_var = None, photo_var = None\<rparr>"

text \<open>\<^verbatim>\<open>target_label.configure(image=...)\<close> raises on a destroyed widget.\<close>

definition configure_image :: "label \<Rightarrow> photo \<Rightarrow> error + label" where
  "configure_image l p = (if alive l then Inr (l\<lparr>shown := Some p\<rparr>) else Inl TclError)"

text \<open>\<^verbatim>\<open>request\<close>: runs in the caller's thread and has no \<^verbatim>\<open>try\<close>.\<close>

definition request :: "string \<Rightarrow> nat \<Rightarrow> int \<Rightarrow> int \<Rightarrow> state \<Rightarrow> error + state" where
  "request url target_label width height s =
     (case cache s url of
        Some p \<Rightarrow>
          (case configure_image (labels s target_label) p of
             Inl x \<Rightarrow> Inl x
           | Inr l \<Rightarrow> Inr (s\<lparr>labels := (labels s)(target_label := l\<lparr>image_attr := Some p\<rparr>)\<rparr>))
      | None \<Rightarrow>
          Inr (s\<lparr>queue := queue s @ [(url, ''GET'', width, height, target_label)],
                 unfinished_tasks := unfinished_tasks s + 1\<rparr>))"

text \<open>\<^verbatim>\<open>Queue.task_done\<close> raises when called more often than \<^verbatim>\<open>put\<close>.\<close>

definition task_done :: "state \<Rightarrow> error + state" where
  "task_done s =
     (let unfinished = unfinished_tasks s - 1 in
      if unfinished < 0 then Inl ValueError
      else Inr (s\<lparr>unfinished_tasks := unfinished\<rparr>))"

text \<open>
  The \<^verbatim>\<open>try\<close> block of one pass of the \<^verbatim>\<open>while True\<close> loop, after
  \<^verbatim>\<open>self.queue.get\<close> has returned a request. The result is the state at the point
  where the block is left and the exception, if any, that left it. The statement
  \<^verbatim>\<open>photo = ImageTk.PhotoImage(background)\<close> gives the variable \<^verbatim>\<open>photo\<close> its new
  value. \<^verbatim>\<open>after\<close> only registers the callback and is taken to succeed.
\<close>

definition worker_body :: "env \<Rightarrow> state \<Rightarrow> string \<Rightarrow> int \<Rightarrow> int \<Rightarrow> state \<times> error option" where
  "worker_body e s1 url width height =
     (case fetch_image e (fallback_paths s1) url of
        Inl x \<Rightarrow> (s1, Some x)
      | Inr None \<Rightarrow>
          (case task_done s1 of Inl x \<Rightarrow> (s1, Some x) | Inr s2 \<Rightarrow> (s2, None))
      | Inr (Some img) \<Rightarrow>
          (case composite e (theme s1) (photo_count s1) img width height of
             Inl x \<Rightarrow> (s1, Some x)
           | Inr photo \<Rightarrow>
               (s1\<lparr>photo_count := photo_count s1 + 1,
                   photo_var := Some photo,
                   cache := (cache s1)(url \<mapsto> photo),
                   after_queue := after_queue s1 + 1\<rparr>, None)))"

text \<open>
  The whole \<^verbatim>\<open>try\<close> block. An empty queue makes \<^verbatim>\<open>get\<close> raise \<^verbatim>\<open>Empty\<close> after its
  timeout, and no variable changes. Otherwise the tuple assignment
  \<^verbatim>\<open>url, _method, width, height, target_label = self.queue.get(timeout=1)\<close> takes the
  oldest request and gives the variable \<^verbatim>\<open>target_label\<close> its new value.
\<close>

definition worker_try :: "env \<Rightarrow> state \<Rightarrow> state \<times> error option" where
  "worker_try e s =
     (case queue s of
        [] \<Rightarrow> (s, Some Empty)
      | (url, method, width, height, target_label) # rest \<Rightarrow>
          worker_body e (s\<lparr>queue := rest, target_label_var := Some target_label\<rparr>)
            url width height)"

text \<open>
  One pass of the loop: both \<^verbatim>\<open>except\<close> clauses swallow the exception, and the
  \<^verbatim>\<open>finally\<close> clause calls \<^verbatim>\<open>task_done\<close> inside a \<^verbatim>\<open>try\<close> of its own.
\<close>

definition worker_iter :: "env \<Rightarrow> state \<Rightarrow> state" where
  "worker_iter e s =
     (let s' = fst (worker_try e s) in
      case task_done s' of Inl x \<Rightarrow> s' | Inr s'' \<Rightarrow> s'')"

text \<open>
  The closure \<^verbatim>\<open>assign\<close> that the worker hands to \<^verbatim>\<open>target_label.after(0, ...)\<close>. It
  reads \<^verbatim>\<open>target_label\<close> and \<^verbatim>\<open>photo\<close> when it runs; every exception in it, also that
  of an unbound variable, is swallowed.
\<close>

definition assign :: "state \<Rightarrow> state" where
  "assign s =
     (case target_label_var s of
        None \<Rightarrow> s
      | Some target_label \<Rightarrow>
          (case photo_var s of
             None \<Rightarrow> s
           | Some photo \<Rightarrow>
               (case configure_image (labels s target_label) photo of
                  Inl x \<Rightarrow> s
                | Inr l \<Rightarrow>
                    s\<lparr>labels := (labels s)(target_label := l\<lparr>image_attr := Some photo\<rparr>)\<rparr>)))"

text \<open>
  The Tk main loop, in the thread that owns the interface, runs one of the callbacks it
  has been handed. It does so between two steps of the worker; a pass of the worker is
  one step here.
\<close>

definition ui_run :: "state \<Rightarrow> state" where
  "ui_run s =
     (if after_queue s = 0 then s
      else assign (s\<lparr>after_queue := after_queue s - 1\<rparr>))"

text \<open>A start state for the examples: every label exists and shows nothing.\<close>

definition blank :: "nat \<Rightarrow> label" where
  "blank = (\<lambda>_. \<lparr>alive = True, shown = None, image_attr = None\<rparr>)"

definition demo_state :: state where
  "demo_state = init_loader demo_env init_theme ''ws'' blank"

text \<open>
  States for the examples: a loader whose theme gives a card colour that starts with
  \<^verbatim>\<open>#\<close> and is no hexadecimal number, with one request for a readable local poster
  waiting; and the same poster asked for twice, by the card grid (140 x 210) and by the
  details window (200 x 300), before the worker has run.
\<close>

definition bad_card_state :: state where
  "bad_card_state = demo_state\<lparr>theme := theme_with_card ''#GGGGGG'',
     queue := [(''posters/a.png'', ''GET'', 100, 100, 1)], unfinished_tasks := 1\<rparr>"

definition twice_state :: state where
  "twice_state = demo_state\<lparr>
     queue := [(''http://good/img.jpg'', ''GET'', 140, 210, 1),
               (''http://good/img.jpg'', ''GET'', 200, 300, 2)],
     unfinished_tasks := 2\<rparr>"

definition done_state :: state where
  "done_state = worker_iter demo_env (worker_iter demo_env twice_state)"

text \<open>
  The reachable poster, the surface the worker makes of it for a target of its own
  aspect ratio, and the same poster asked for twice at one size.
\<close>

definition poster :: image where
  "poster = \<lparr>iwidth = 600, iheight = 900, origin = ''http''\<rparr>"

definition surface_of :: "nat \<Rightarrow> int \<Rightarrow> int \<Rightarrow> photo" where
  "surface_of n w h = \<lparr>pid = n, psize = (w, h), fill = (24, 24, 24), pasted = poster,
     pasted_size = (w, h), paste_pos = (0, 0), rounded = True\<rparr>"

definition same_twice_state :: state where
  "same_twice_state = demo_state\<lparr>
     queue := [(''http://good/img.jpg'', ''GET'', 140, 210, 1),
               (''http://good/img.jpg'', ''GET'', 140, 210, 2)],
     unfinished_tasks := 2\<rparr>"

text \<open>
  A request for the banner; and, in the workspace without fallback assets, a request
  for the local poster by label 1 followed by a request for a missing file by label 2.
\<close>

definition banner_state :: state where
  "banner_state = demo_state\<lparr>
     queue := [(''posters/banner.png'', ''GET'', 140, 210, 1)], unfinished_tasks := 1\<rparr>"

definition stale_state :: state where
  "stale_state = (init_loader bare_env init_theme ''ws'' blank)\<lparr>
     queue := [(''posters/a.png'', ''GET'', 100, 100, 1),
               (''missing/path.png'', ''GET'', 100, 100, 2)],
     unfinished_tasks := 2\<rparr>"

definition local_surface :: photo where
  "local_surface = \<lparr>pid = 0, psize = (100, 100), fill = (24, 24, 24),
     pasted = \<lparr>iwidth = 300, iheight = 300, origin = ''posters/a.png''\<rparr>,
     pasted_size = (100, 100), paste_pos = (0, 0), rounded = True\<rparr>"

subsection \<open>Properties of the resolver\<close>

lemma fallback_loop_skip:
  "\<forall>p \<in> set pre. \<forall>img. fallback_try e p \<noteq> Inr (Some img) \<Longrightarrow>
   fallback_loop e (pre @ rest) = fallback_loop e rest"
proof (induction pre)
  case Nil
  show ?case by simp
next
  case (Cons p pre)
  then have "\<forall>img. fallback_try e p \<noteq> Inr (Some img)" by simp
  then have "fallback_loop e (p # (pre @ rest)) = fallback_loop e (pre @ rest)"
    by (cases "fallback_try e p") (auto split: option.splits)
  with Cons show ?case by simp
qed

lemma fallback_loop_total: "\<exists>r. fallback_loop e fps = Inr r"
  by (induction fps) (auto split: sum.splits option.splits)

lemma fallback_loop_none:
  "\<forall>p \<in> set fps. \<forall>img. fallback_try e p \<noteq> Inr (Some img) \<Longrightarrow>
   fallback_loop e fps = Inr None"
  using fallback_loop_skip [of fps e "[]"] by simp

lemmas demo_defs = demo_env_def demo_get_def demo_open_bytes_def demo_exists_def
  demo_open_def startswith_def network_step_def local_step_def fallback_try_def

subsection \<open>Claims about the resolver\<close>

text \<open>
  C3, as stated, fails: \<^verbatim>\<open>Image.open\<close> reads the header of a file and leaves the
  decoding of the pixel data to the first use, so an entry that opens is returned even
  when it does not decode. Here the first fallback asset opens and does not decode, the
  second exists, opens and decodes, and \<^verbatim>\<open>_fetch_image\<close> returns the first; the
  compositor then fails on it.
\<close>

theorem fallback_decodes_counterexample:
  "fetch_image lazy_env [''ws/INF.png'', ''ws/404.webp''] ''missing/path.png''
     = Inr (Some \<lparr>iwidth = 512, iheight = 512, origin = ''ws/INF.png''\<rparr>)
   \<and> \<not> load_ok lazy_env \<lparr>iwidth = 512, iheight = 512, origin = ''ws/INF.png''\<rparr>
   \<and> composite lazy_env init_theme 0 \<lparr>iwidth = 512, iheight = 512, origin = ''ws/INF.png''\<rparr>
        140 210 = Inl OSError
   \<and> path_exists lazy_env ''ws/404.webp''
   \<and> image_open lazy_env ''ws/404.webp''
        = Inr \<lparr>iwidth = 400, iheight = 300, origin = ''ws/404.webp''\<rparr>
   \<and> load_ok lazy_env \<lparr>iwidth = 400, iheight = 300, origin = ''ws/404.webp''\<rparr>"
  by (simp add: demo_defs lazy_env_def lazy_open_def fetch_image_def composite_def)

text \<open>
  C3, amended. When the network step yields no image and the reference is not an
  existing local file that opens, \<^verbatim>\<open>_fetch_image\<close> returns the image opened from the
  first entry of the fallback list that exists and that \<^verbatim>\<open>Image.open\<close> accepts; every
  earlier entry is passed over. The result is a function of the reference and the file
  system alone, so a repeated call returns it again.
\<close>

theorem fetch_image_first_fallback:
  assumes "\<forall>img. network_step e url \<noteq> Inr (Some img)"
    and "\<not> (url \<noteq> [] \<and> path_exists e url \<and> (\<exists>img. image_open e url = Inr img))"
    and "\<forall>p \<in> set pre. \<not> (path_exists e p \<and> (\<exists>img. image_open e p = Inr img))"
    and "path_exists e fp" and "image_open e fp = Inr img"
  shows "fetch_image e (pre @ fp # post) url = Inr (Some img)"
proof -
  have loc: "\<forall>i. local_step e url \<noteq> Inr (Some i)"
    using assms(2) by (auto simp: local_step_def split: sum.splits if_splits)
  have "\<forall>p \<in> set pre. \<forall>i. fallback_try e p \<noteq> Inr (Some i)"
    using assms(3) by (auto simp: fallback_try_def split: sum.splits if_splits)
  then have "fallback_loop e (pre @ fp # post) = fallback_loop e (fp # post)"
    by (rule fallback_loop_skip)
  also have "\<dots> = Inr (Some img)"
    using assms(4,5) by (simp add: fallback_try_def)
  finally have fb: "fallback_loop e (pre @ fp # post) = Inr (Some img)" .
  show ?thesis
  proof (cases "network_step e url")
    case (Inl x)
    with loc fb show ?thesis
      by (cases "local_step e url") (auto simp: fetch_image_def split: option.splits)
  next
    case (Inr r)
    with assms(1) have "r = None" by (cases r) auto
    with Inr loc fb show ?thesis
      by (cases "local_step e url") (auto simp: fetch_image_def split: option.splits)
  qed
qed

theorem fetch_image_first_fallback_witness:
  "fetch_image demo_env [''ws/INF.png'', ''ws/404.webp''] ''http://gone/img.jpg''
     = Inr (Some \<lparr>iwidth = 400, iheight = 300, origin = ''ws/404.webp''\<rparr>)
   \<and> \<not> path_exists demo_env ''ws/INF.png''"
  using fetch_image_first_fallback [of demo_env "''http://gone/img.jpg''" "[''ws/INF.png'']"
      "''ws/404.webp''" "\<lparr>iwidth = 400, iheight = 300, origin = ''ws/404.webp''\<rparr>" "[]"]
  by (simp add: demo_defs)

text \<open>
  C4. \<^verbatim>\<open>_fetch_image\<close> never raises: every call returns a value. When the network
  step, the local step and every fallback entry fail, that value is \<^verbatim>\<open>None\<close>; with an
  empty fallback list nothing is asked of the entries.
\<close>

theorem fetch_image_absent_not_raised:
  "(\<exists>r. fetch_image e fps url = Inr r)
   \<and> ((\<forall>img. network_step e url \<noteq> Inr (Some img))
        \<and> (\<forall>img. local_step e url \<noteq> Inr (Some img))
        \<and> (\<forall>p \<in> set fps. \<forall>img. fallback_try e p \<noteq> Inr (Some img))
      \<longrightarrow> fetch_image e fps url = Inr None)"
proof (intro conjI impI)
  obtain r where r: "fallback_loop e fps = Inr r"
    using fallback_loop_total by blast
  then show "\<exists>r. fetch_image e fps url = Inr r"
    by (auto simp: fetch_image_def split: sum.splits option.splits)
next
  assume h: "(\<forall>img. network_step e url \<noteq> Inr (Some img))
        \<and> (\<forall>img. local_step e url \<noteq> Inr (Some img))
        \<and> (\<forall>p \<in> set fps. \<forall>img. fallback_try e p \<noteq> Inr (Some img))"
  then have "fallback_loop e fps = Inr None"
    using fallback_loop_none by blast
  with h show "fetch_image e fps url = Inr None"
    by (auto simp: fetch_image_def split: sum.splits option.splits)
qed

theorem fetch_image_absent_not_raised_witness:
  "fetch_image demo_env [] ''missing/path.png'' = Inr None
   \<and> fetch_image demo_env [''ws/INF.png''] ''http://slow/img.jpg'' = Inr None
   \<and> requests_get demo_env ''http://slow/img.jpg'' = Inl RequestException"
  using fetch_image_absent_not_raised [of demo_env "[]" "''missing/path.png''"]
    fetch_image_absent_not_raised [of demo_env "[''ws/INF.png'']" "''http://slow/img.jpg''"]
  by (simp add: demo_defs)

subsection \<open>Properties of rounding and of the scale-to-fit step\<close>

lemma py_round_near: "\<bar>of_int (py_round x) - x\<bar> \<le> 1 / 2"
proof -
  have "of_int \<lfloor>x\<rfloor> \<le> x" "x < of_int \<lfloor>x\<rfloor> + 1" by linarith+
  then show ?thesis
    by (auto simp: py_round_def Let_def)
qed

lemma py_round_le: "x \<le> of_int n \<Longrightarrow> py_round x \<le> n"
proof -
  assume a: "x \<le> of_int n"
  have f: "of_int \<lfloor>x\<rfloor> \<le> x" by linarith
  have "\<lfloor>x\<rfloor> \<le> n" using a by (simp add: floor_le_iff) 
  moreover have "x - of_int \<lfloor>x\<rfloor> > 0 \<Longrightarrow> \<lfloor>x\<rfloor> + 1 \<le> n"
  proof -
    assume "x - of_int \<lfloor>x\<rfloor> > 0"
    then have "of_int \<lfloor>x\<rfloor> < (of_int n :: rat)" using a by linarith
    then show ?thesis by simp
  qed
  ultimately show ?thesis
    by (auto simp: py_round_def Let_def)
qed

lemma py_round_zero: "0 \<le> x \<Longrightarrow> x \<le> 1 / 2 \<Longrightarrow> py_round x = 0"
proof -
  assume a: "0 \<le> x" "x \<le> 1 / 2"
  then have "\<lfloor>x\<rfloor> = 0" by (simp add: floor_eq_iff)
  with a show ?thesis by (simp add: py_round_def Let_def)
qed

lemma py_round_pos: "1 / 2 < x \<Longrightarrow> 1 \<le> py_round x"
proof -
  assume a: "1 / 2 < x"
  show ?thesis
  proof (cases "x < 1")
    case True
    with a have "\<lfloor>x\<rfloor> = 0" by (simp add: floor_eq_iff)
    with a show ?thesis by (simp add: py_round_def Let_def)
  next
    case False
    then have "(of_int 1 :: rat) \<le> x" by simp
    then have "1 \<le> \<lfloor>x\<rfloor>" by (simp only: le_floor_iff)
    then show ?thesis by (auto simp: py_round_def Let_def)
  qed
qed

lemma py_round_scaled:
  assumes "0 < (d::int)" and "r = py_round (of_int a / of_int d * of_int b)"
  shows "2 * \<bar>r * d - a * b\<bar> \<le> d"
proof -
  have "\<bar>of_int r - (of_int a / of_int d * of_int b :: rat)\<bar> \<le> 1 / 2"
    unfolding assms(2) by (rule py_round_near)
  then have "\<bar>of_int r - (of_int a / of_int d * of_int b :: rat)\<bar> * of_int d \<le> 1 / 2 * of_int d"
    using assms(1) by (intro mult_right_mono) auto
  also have "\<bar>of_int r - (of_int a / of_int d * of_int b :: rat)\<bar> * of_int d
      = \<bar>(of_int r - (of_int a / of_int d * of_int b :: rat)) * of_int d\<bar>"
    using assms(1) by (simp add: abs_mult)
  also have "(of_int r - (of_int a / of_int d * of_int b :: rat)) * of_int d = of_int (r * d - a * b)"
    using assms(1) by (simp add: field_simps)
  finally have "2 * (of_int \<bar>r * d - a * b\<bar> :: rat) \<le> of_int d" by simp
  then have "(of_int (2 * \<bar>r * d - a * b\<bar>) :: rat) \<le> of_int d" by simp
  then show ?thesis by (simp only: of_int_le_iff)
qed

lemma scaled_half:
  assumes "0 < (d::int)"
  shows "(1 / 2 < (of_int a / of_int d * of_int b :: rat)) = (d < 2 * a * b)"
proof -
  have "(1 / 2 < (of_int a / of_int d * of_int b :: rat))
      = ((of_int d :: rat) < of_int (2 * a * b))"
    using assms by (simp add: field_simps)
  then show ?thesis by (simp only: of_int_less_iff)
qed

lemma contain_wide:
  assumes "0 < w" "0 < h" "0 < W" "0 < H" "h * W < w * H"
  shows "contain (w, h) (W, H) = resize (W, py_round (of_int h / of_int w * of_int W))"
    and "py_round (of_int h / of_int w * of_int W) \<le> H"
proof -
  have lt: "(of_int W / of_int H :: rat) < of_int w / of_int h"
    using assms by (simp add: divide_simps flip: of_int_mult) (simp add: mult.commute)
  then show "contain (w, h) (W, H) = resize (W, py_round (of_int h / of_int w * of_int W))"
    using assms by (auto simp: contain_def Let_def)
  have "(of_int h / of_int w * of_int W :: rat) \<le> of_int H"
    using assms by (simp add: divide_simps flip: of_int_mult) (simp add: mult.commute)
  then show "py_round (of_int h / of_int w * of_int W) \<le> H" by (rule py_round_le)
qed

lemma contain_tall:
  assumes "0 < w" "0 < h" "0 < W" "0 < H" "w * H < h * W"
  shows "contain (w, h) (W, H) = resize (py_round (of_int w / of_int h * of_int H), H)"
    and "py_round (of_int w / of_int h * of_int H) \<le> W"
proof -
  have lt: "(of_int w / of_int h :: rat) < of_int W / of_int H"
    using assms by (simp add: divide_simps flip: of_int_mult) (simp add: mult.commute)
  then show "contain (w, h) (W, H) = resize (py_round (of_int w / of_int h * of_int H), H)"
    using assms by (auto simp: contain_def Let_def)
  have "(of_int w / of_int h * of_int H :: rat) \<le> of_int W"
    using assms by (simp add: divide_simps flip: of_int_mult) (simp add: mult.commute)
  then show "py_round (of_int w / of_int h * of_int H) \<le> W" by (rule py_round_le)
qed

lemma contain_same_ratio:
  assumes "0 < w" "0 < h" "0 < W" "0 < H" "h * W = w * H"
  shows "contain (w, h) (W, H) = Inr (W, H)"
proof -
  have "(of_int w * of_int H :: rat) = of_int W * of_int h"
    using assms(5) by (simp add: mult.commute flip: of_int_mult)
  then have "(of_int w / of_int h :: rat) = of_int W / of_int H"
    using assms(2,4) by (simp add: divide_simps)
  then show ?thesis
    using assms by (auto simp: contain_def Let_def resize_def)
qed

lemma contain_banner: "contain (1000, 1) (140, 210) = Inl ValueError"
proof -
  have "py_round (of_int 1 / of_int 1000 * of_int 140) = 0"
    by (rule py_round_zero) simp_all
  then show ?thesis
    using contain_wide(1) [of 1000 1 140 210] by (simp add: resize_def)
qed

lemma resize_side:
  "0 < W \<Longrightarrow> resize (W, r) = (if 1 \<le> r then Inr (W, r) else Inl ValueError)"
  "0 < H \<Longrightarrow> resize (r, H) = (if 1 \<le> r then Inr (r, H) else Inl ValueError)"
  by (auto simp: resize_def)

subsection \<open>Claim about the scale-to-fit step\<close>

text \<open>
  C8, as stated, fails: for a raw image of 1000 x 1 pixels and the target 140 x 210, all
  four numbers positive, the height of the scaled image rounds to 0, the resize raises
  and there is no scaled intermediate.
\<close>

theorem contain_flat_image_counterexample:
  "contain (1000, 1) (140, 210) = Inl ValueError"
  by (rule contain_banner)

text \<open>
  C8, amended. For a raw image of size \<open>(w, h)\<close> and a target \<open>(W, H)\<close>, all positive,
  the scale-to-fit step produces a scaled intermediate exactly when the side it rounds
  stays above half a pixel (that is \<open>w < 2 h W\<close> when the width is the relatively larger
  dimension, \<open>w / W \<ge> h / H\<close>, and \<open>h < 2 w H\<close> otherwise), and raises otherwise. The
  intermediate keeps the aspect ratio up to that rounding: its relatively larger
  dimension equals the target bound, and the other one is the exact quotient rounded to
  the nearest integer, at least 1 and at most its target bound.
\<close>

theorem contain_aspect_preserved:
  assumes "0 < w" "0 < h" "0 < W" "0 < H"
  shows "if h * W \<le> w * H
         then (if w < 2 * h * W
               then \<exists>rh. contain (w, h) (W, H) = Inr (W, rh)
                      \<and> 1 \<le> rh \<and> rh \<le> H \<and> 2 * \<bar>rh * w - h * W\<bar> \<le> w
               else contain (w, h) (W, H) = Inl ValueError)
         else (if h < 2 * w * H
               then \<exists>rw. contain (w, h) (W, H) = Inr (rw, H)
                      \<and> 1 \<le> rw \<and> rw \<le> W \<and> 2 * \<bar>rw * h - w * H\<bar> \<le> h
               else contain (w, h) (W, H) = Inl ValueError)"
proof (cases "h * W < w * H")
  case True
  define x :: rat where "x = of_int h / of_int w * of_int W"
  have c: "contain (w, h) (W, H) = resize (W, py_round x)" and le: "py_round x \<le> H"
    unfolding x_def using contain_wide [OF assms True] by simp_all
  have x0: "0 \<le> x" unfolding x_def using assms by simp
  have half: "(1 / 2 < x) = (w < 2 * h * W)"
    unfolding x_def using scaled_half [OF assms(1)] by simp
  have near: "2 * \<bar>py_round x * w - h * W\<bar> \<le> w"
    using py_round_scaled [OF assms(1), of "py_round x" h W] by (simp add: x_def)
  show ?thesis
  proof (cases "w < 2 * h * W")
    case big: True
    then have "1 \<le> py_round x" using half py_round_pos by simp
    with c le near big True assms(3) show ?thesis by (simp add: resize_side)
  next
    case small: False
    then have "py_round x = 0" using half x0 py_round_zero [of x] by simp
    with c small True assms(3) show ?thesis by (simp add: resize_side)
  qed
next
  case False
  show ?thesis
  proof (cases "h * W = w * H")
    case True
    have "w * 1 \<le> w * H" using assms(1,4) by (intro mult_left_mono) simp_all
    then have "w < 2 * (w * H)" using assms(1) by simp
    then have "w < 2 * (h * W)" using True by simp
    then have "w < 2 * h * W" by (simp add: mult.assoc)
    with contain_same_ratio [OF assms True] True assms show ?thesis by simp
  next
    case ne: False
    with False have lt: "w * H < h * W" by simp
    define x :: rat where "x = of_int w / of_int h * of_int H"
    have c: "contain (w, h) (W, H) = resize (py_round x, H)" and le: "py_round x \<le> W"
      unfolding x_def using contain_tall [OF assms lt] by simp_all
    have x0: "0 \<le> x" unfolding x_def using assms by simp
    have half: "(1 / 2 < x) = (h < 2 * w * H)"
      unfolding x_def using scaled_half [OF assms(2)] by simp
    have near: "2 * \<bar>py_round x * h - w * H\<bar> \<le> h"
      using py_round_scaled [OF assms(2), of "py_round x" w H] by (simp add: x_def)
    show ?thesis
    proof (cases "h < 2 * w * H")
      case big: True
      then have "1 \<le> py_round x" using half py_round_pos by simp
      with c le near big lt assms(4) show ?thesis by (simp add: resize_side)
    next
      case small: False
      then have "py_round x = 0" using half x0 py_round_zero [of x] by simp
      with c small lt assms(4) show ?thesis by (simp add: resize_side)
    qed
  qed
qed

theorem contain_aspect_preserved_witness:
  "contain (400, 300) (140, 210) = Inr (140, 105)
   \<and> contain (600, 900) (140, 210) = Inr (140, 210)
   \<and> contain (2, 3) (10, 100) = Inr (10, 15)
   \<and> contain (1, 1000) (140, 210) = Inl ValueError"
  using contain_aspect_preserved [of 400 300 140 210]
    contain_aspect_preserved [of 600 900 140 210]
    contain_aspect_preserved [of 2 3 10 100]
    contain_aspect_preserved [of 1 1000 140 210]
  by (simp add: contain_def py_round_def resize_def)

subsection \<open>Properties of one pass of the worker loop\<close>

lemma task_done_frame:
  "task_done s = Inr s' \<Longrightarrow> s' = s\<lparr>unfinished_tasks := unfinished_tasks s - 1\<rparr>"
  by (auto simp: task_done_def Let_def split: if_splits)

lemma worker_iter_eq:
  "\<exists>u. worker_iter e s = (fst (worker_try e s))\<lparr>unfinished_tasks := u\<rparr>"
proof (cases "task_done (fst (worker_try e s))")
  case (Inl x)
  then have "worker_iter e s = (fst (worker_try e s))\<lparr>unfinished_tasks := unfinished_tasks (fst (worker_try e s))\<rparr>"
    by (simp add: worker_iter_def Let_def)
  then show ?thesis by blast
next
  case (Inr s'')
  then show ?thesis
    using task_done_frame [OF Inr] by (auto simp: worker_iter_def Let_def)
qed

lemma worker_iter_fields:
  "cache (worker_iter e s) = cache (fst (worker_try e s))"
  "queue (worker_iter e s) = queue (fst (worker_try e s))"
  "theme (worker_iter e s) = theme (fst (worker_try e s))"
  "fallback_paths (worker_iter e s) = fallback_paths (fst (worker_try e s))"
  "labels (worker_iter e s) = labels (fst (worker_try e s))"
  "after_queue (worker_iter e s) = after_queue (fst (worker_try e s))"
  "photo_count (worker_iter e s) = photo_count (fst (worker_try e s))"
  "target_label_var (worker_iter e s) = target_label_var (fst (worker_try e s))"
  "photo_var (worker_iter e s) = photo_var (fst (worker_try e s))"
  using worker_iter_eq [of e s] by auto

lemma worker_try_success:
  assumes "queue s = (url, m, w, h, l) # rest"
    and "fetch_image e (fallback_paths s) url = Inr (Some img)"
    and "composite e (theme s) (photo_count s) img w h = Inr p"
  shows "worker_try e s =
     (s\<lparr>queue := rest, target_label_var := Some l, photo_count := photo_count s + 1,
         photo_var := Some p, cache := (cache s)(url \<mapsto> p),
         after_queue := after_queue s + 1\<rparr>, None)"
  using assms by (simp add: worker_try_def worker_body_def)

lemma worker_try_absent:
  assumes "queue s = (url, m, w, h, l) # rest"
    and "fetch_image e (fallback_paths s) url = Inr None"
  shows "\<exists>u. fst (worker_try e s)
     = s\<lparr>queue := rest, target_label_var := Some l, unfinished_tasks := u\<rparr>"
proof (cases "task_done (s\<lparr>queue := rest, target_label_var := Some l\<rparr>)")
  case (Inl x)
  with assms have "fst (worker_try e s)
      = s\<lparr>queue := rest, target_label_var := Some l, unfinished_tasks := unfinished_tasks s\<rparr>"
    by (simp add: worker_try_def worker_body_def)
  then show ?thesis by blast
next
  case (Inr s2)
  with assms task_done_frame [OF Inr] show ?thesis
    by (auto simp: worker_try_def worker_body_def)
qed

lemma worker_try_failed:
  assumes "queue s = (url, m, w, h, l) # rest"
    and "fetch_image e (fallback_paths s) url = Inr (Some img)"
    and "composite e (theme s) (photo_count s) img w h = Inl x"
  shows "worker_try e s = (s\<lparr>queue := rest, target_label_var := Some l\<rparr>, Some x)"
  using assms by (simp add: worker_try_def worker_body_def)

lemma worker_try_labels: "labels (fst (worker_try e s)) = labels s"
  by (auto simp: worker_try_def worker_body_def Let_def task_done_def
      split: list.splits sum.splits option.splits prod.splits)

lemma worker_try_theme: "theme (fst (worker_try e s)) = theme s"
  by (auto simp: worker_try_def worker_body_def Let_def task_done_def
      split: list.splits sum.splits option.splits prod.splits)

lemma composite_size_fill:
  assumes "composite e th n img w h = Inr p"
  shows "psize p = (w, h) \<and> pid p = n
     \<and> (\<exists>bg_hex. theme_get th ''card'' = Inr bg_hex \<and> bg_rgb_of bg_hex = Inr (fill p))"
  using assms by (auto simp: composite_def split: if_splits sum.splits)

lemmas eval_defs = demo_defs fetch_image_def composite_def contain_def py_round_def resize_def
  theme_get_def theme_with_card_def init_theme_def dark_palette_def light_palette_def toggle_def
  bg_rgb_of_def py_int16_def py_strip_def py_isspace_def hexval_def
  worker_iter_def worker_try_def worker_body_def task_done_def request_def configure_image_def
  lazy_env_def lazy_open_def bare_env_def banner_state_def stale_state_def local_surface_def
  assign_def ui_run_def init_loader_def demo_state_def blank_def bad_card_state_def
  twice_state_def Let_def

subsection \<open>Claim about the canvas and its fill\<close>




lemma worker_iter_success:
  assumes "queue s = (url, m, w, h, l) # rest"
    and "fetch_image e (fallback_paths s) url = Inr (Some img)"
    and "composite e (theme s) (photo_count s) img w h = Inr p"
  shows "queue (worker_iter e s) = rest"
    and "photo_count (worker_iter e s) = photo_count s + 1"
    and "cache (worker_iter e s) = (cache s)(url \<mapsto> p)"
    and "after_queue (worker_iter e s) = after_queue s + 1"
    and "theme (worker_iter e s) = theme s"
    and "fallback_paths (worker_iter e s) = fallback_paths s"
    and "labels (worker_iter e s) = labels s"
    and "target_label_var (worker_iter e s) = Some l"
    and "photo_var (worker_iter e s) = Some p"
  using worker_try_success [OF assms] by (simp_all add: worker_iter_fields)

subsection \<open>The example run\<close>

lemma twice_first:
  "worker_iter demo_env twice_state = twice_state\<lparr>
     queue := [(''http://good/img.jpg'', ''GET'', 200, 300, 2)],
     unfinished_tasks := 1, photo_count := 1,
     cache := [''http://good/img.jpg'' \<mapsto> surface_of 0 140 210],
     after_queue := 1, target_label_var := Some 1,
     photo_var := Some (surface_of 0 140 210)\<rparr>"
  by (simp add: eval_defs poster_def surface_of_def)

lemma done_state_cache:
  "cache done_state ''http://good/img.jpg'' = Some (surface_of 1 200 300)"
  unfolding done_state_def twice_first by (simp add: eval_defs poster_def surface_of_def)

lemma done_state_labels: "labels done_state = blank"
  unfolding done_state_def
  by (simp add: worker_iter_fields worker_try_labels twice_state_def demo_state_def init_loader_def)

lemma same_twice_first:
  "worker_iter demo_env same_twice_state = same_twice_state\<lparr>
     queue := [(''http://good/img.jpg'', ''GET'', 140, 210, 2)],
     unfinished_tasks := 1, photo_count := 1,
     cache := [''http://good/img.jpg'' \<mapsto> surface_of 0 140 210],
     after_queue := 1, target_label_var := Some 1,
     photo_var := Some (surface_of 0 140 210)\<rparr>"
  by (simp add: eval_defs poster_def surface_of_def same_twice_state_def)

lemma good_poster:
  "fetch_image demo_env [''ws/INF.png'', ''ws/404.webp''] ''http://good/img.jpg'' = Inr (Some poster)"
  by (simp add: demo_defs fetch_image_def poster_def)

lemma composite_poster:
  "composite demo_env init_theme n poster 140 210 = Inr (surface_of n 140 210)"
  "composite demo_env init_theme n poster 200 300 = Inr (surface_of n 200 300)"
  by (simp_all add: eval_defs poster_def surface_of_def)

lemma demo_state_fields:
  "fallback_paths demo_state = [''ws/INF.png'', ''ws/404.webp'']"
  "theme demo_state = init_theme" "photo_count demo_state = 0" "cache demo_state = Map.empty"
  "labels demo_state = blank" "after_queue demo_state = 0" "queue demo_state = []"
  "unfinished_tasks demo_state = 0"
  by (simp_all add: demo_state_def init_loader_def demo_env_def)

subsection \<open>Claims about \<^verbatim>\<open>request\<close> and the worker loop\<close>

text \<open>
  C2, as stated, fails: a request whose resolution succeeds need not lead to an
  assignment. The banner resolves, but its scaled height rounds to 0, the compositor
  raises, the catch-all swallows the exception, and nothing is handed to \<^verbatim>\<open>after\<close>.
\<close>

theorem resolved_not_scheduled_counterexample:
  "fetch_image demo_env (fallback_paths banner_state) ''posters/banner.png''
     = Inr (Some \<lparr>iwidth = 1000, iheight = 1, origin = ''posters/banner.png''\<rparr>)
   \<and> queue (worker_iter demo_env banner_state) = []
   \<and> after_queue (worker_iter demo_env banner_state) = 0
   \<and> cache (worker_iter demo_env banner_state) ''posters/banner.png'' = None"
proof -
  have c: "composite demo_env init_theme 0
      \<lparr>iwidth = 1000, iheight = 1, origin = ''posters/banner.png''\<rparr> 140 210 = Inl ValueError"
    by (simp add: composite_def contain_banner demo_env_def)
  have f: "fetch_image demo_env [''ws/INF.png'', ''ws/404.webp''] ''posters/banner.png''
      = Inr (Some \<lparr>iwidth = 1000, iheight = 1, origin = ''posters/banner.png''\<rparr>)"
    by (simp add: demo_defs fetch_image_def)
  show ?thesis
    by (simp add: banner_state_def demo_state_fields f c worker_iter_def worker_try_def
        worker_body_def task_done_def)
qed

text \<open>
  C2, amended. The worker never assigns a surface to a label itself: a pass of the
  worker loop leaves every label as it was. For every processed request whose
  resolution and compositing both succeed, one \<^verbatim>\<open>assign\<close> callback is handed to
  \<^verbatim>\<open>after\<close>, that is, to the Tk main loop, with the worker's variables holding the
  request's label and the new photo. The assignment happens when the main loop, in the
  thread that owns the interface, runs a callback: it shows the photo the worker's
  variable then holds on the label the worker's variable then names. In particular,
  when the callback runs before the worker takes the next request, the new photo is
  shown on the request's label.
\<close>

theorem worker_schedules_never_writes:
  "labels (worker_iter e s) = labels s
   \<and> (queue s = (url, m, width, height, target_label) # rest
        \<and> fetch_image e (fallback_paths s) url = Inr (Some img)
        \<and> composite e (theme s) (photo_count s) img width height = Inr p \<longrightarrow>
      after_queue (worker_iter e s) = after_queue s + 1
      \<and> target_label_var (worker_iter e s) = Some target_label
      \<and> photo_var (worker_iter e s) = Some p
      \<and> (alive (labels s target_label) \<longrightarrow>
           shown (labels (ui_run (worker_iter e s)) target_label) = Some p
           \<and> image_attr (labels (ui_run (worker_iter e s)) target_label) = Some p
           \<and> after_queue (ui_run (worker_iter e s)) = after_queue s))
   \<and> (0 < after_queue t \<and> target_label_var t = Some l \<and> photo_var t = Some q
        \<and> alive (labels t l) \<longrightarrow>
      shown (labels (ui_run t) l) = Some q
      \<and> image_attr (labels (ui_run t) l) = Some q
      \<and> (\<forall>k. k \<noteq> l \<longrightarrow> labels (ui_run t) k = labels t k)
      \<and> after_queue (ui_run t) = after_queue t - 1)"
proof (intro conjI impI)
  show "labels (worker_iter e s) = labels s"
    by (simp add: worker_iter_fields worker_try_labels)
next
  assume a: "queue s = (url, m, width, height, target_label) # rest
        \<and> fetch_image e (fallback_paths s) url = Inr (Some img)
        \<and> composite e (theme s) (photo_count s) img width height = Inr p"
  then have q: "queue s = (url, m, width, height, target_label) # rest"
    and f: "fetch_image e (fallback_paths s) url = Inr (Some img)"
    and c: "composite e (theme s) (photo_count s) img width height = Inr p"
    by simp_all
  note it = worker_iter_success [OF q f c]
  show "after_queue (worker_iter e s) = after_queue s + 1" by (rule it)
  show "target_label_var (worker_iter e s) = Some target_label" by (rule it)
  show "photo_var (worker_iter e s) = Some p" by (rule it)
  assume al: "alive (labels s target_label)"
  show "shown (labels (ui_run (worker_iter e s)) target_label) = Some p"
    using al by (simp add: ui_run_def assign_def configure_image_def it)
  show "image_attr (labels (ui_run (worker_iter e s)) target_label) = Some p"
    using al by (simp add: ui_run_def assign_def configure_image_def it)
  show "after_queue (ui_run (worker_iter e s)) = after_queue s"
    using al by (simp add: ui_run_def assign_def configure_image_def it)
next
  assume b: "0 < after_queue t \<and> target_label_var t = Some l \<and> photo_var t = Some q
        \<and> alive (labels t l)"
  then show "shown (labels (ui_run t) l) = Some q"
    by (simp add: ui_run_def assign_def configure_image_def)
  from b show "image_attr (labels (ui_run t) l) = Some q"
    by (simp add: ui_run_def assign_def configure_image_def)
  from b show "\<forall>k. k \<noteq> l \<longrightarrow> labels (ui_run t) k = labels t k"
    by (simp add: ui_run_def assign_def configure_image_def)
  from b show "after_queue (ui_run t) = after_queue t - 1"
    by (simp add: ui_run_def assign_def configure_image_def)
qed

theorem worker_schedules_never_writes_witness:
  "labels (worker_iter demo_env twice_state) = labels twice_state
   \<and> after_queue (worker_iter demo_env twice_state) = 1
   \<and> shown (labels (ui_run (worker_iter demo_env twice_state)) 1) = Some (surface_of 0 140 210)
   \<and> after_queue (ui_run (worker_iter demo_env twice_state)) = 0"
proof -
  have h: "queue twice_state = (''http://good/img.jpg'', ''GET'', 140, 210, 1)
             # [(''http://good/img.jpg'', ''GET'', 200, 300, 2)]
      \<and> fetch_image demo_env (fallback_paths twice_state) ''http://good/img.jpg''
          = Inr (Some poster)
      \<and> composite demo_env (theme twice_state) (photo_count twice_state) poster 140 210
          = Inr (surface_of 0 140 210)"
    by (simp add: twice_state_def demo_state_fields good_poster composite_poster)
  have al: "alive (labels twice_state 1)" "after_queue twice_state = 0"
    by (simp_all add: twice_state_def demo_state_fields blank_def)
  show ?thesis
    using worker_schedules_never_writes [where e = demo_env and s = twice_state
        and url = "''http://good/img.jpg''" and m = "''GET''" and width = 140 and height = 210
        and target_label = 1 and rest = "[(''http://good/img.jpg'', ''GET'', 200, 300, 2)]"
        and img = poster and p = "surface_of 0 140 210"] h al
    by simp
qed

text \<open>
  C5. For a reference that is in the cache, \<^verbatim>\<open>request\<close> shows the cached surface on
  the (existing) label at once, in the caller's thread, and returns with the queue, the
  cache and the number of photos made unchanged: nothing is enqueued, so nothing is
  fetched or composited again. For a reference that is not in the cache it appends the
  request to the queue and returns without touching any label.
\<close>

theorem request_hit_applies_miss_enqueues:
  "(cache s url = Some p \<and> alive (labels s target_label) \<longrightarrow>
      (\<exists>s'. request url target_label width height s = Inr s'
         \<and> shown (labels s' target_label) = Some p
         \<and> image_attr (labels s' target_label) = Some p
         \<and> queue s' = queue s \<and> unfinished_tasks s' = unfinished_tasks s
         \<and> cache s' = cache s \<and> after_queue s' = after_queue s
         \<and> photo_count s' = photo_count s))
   \<and> (cache s url = None \<longrightarrow>
      (\<exists>s'. request url target_label width height s = Inr s'
         \<and> queue s' = queue s @ [(url, ''GET'', width, height, target_label)]
         \<and> labels s' = labels s \<and> cache s' = cache s
         \<and> after_queue s' = after_queue s \<and> photo_count s' = photo_count s))"
  by (simp add: request_def configure_image_def)

theorem request_hit_applies_miss_enqueues_witness:
  "request ''http://good/img.jpg'' 1 140 210 demo_state
     = Inr (demo_state\<lparr>queue := [(''http://good/img.jpg'', ''GET'', 140, 210, 1)], unfinished_tasks := 1\<rparr>)
   \<and> (\<exists>s'. request ''http://good/img.jpg'' 3 140 210 done_state = Inr s'
         \<and> shown (labels s' 3) = Some (surface_of 1 200 300)
         \<and> queue s' = queue done_state \<and> cache s' = cache done_state)"
  using request_hit_applies_miss_enqueues [where s = demo_state and url = "''http://good/img.jpg''"
      and target_label = 1 and width = 140 and height = 210]
    request_hit_applies_miss_enqueues [where s = done_state and url = "''http://good/img.jpg''"
      and p = "surface_of 1 200 300" and target_label = 3 and width = 140 and height = 210]
  by (simp add: done_state_cache done_state_labels blank_def request_def configure_image_def
      demo_state_fields)

text \<open>
  C6. When the resolver returns \<^verbatim>\<open>None\<close> for the request taken from the queue, the
  worker should discard the request and leave its destination as it was. The pass itself
  writes no label and adds nothing to the cache, but taking the request has given the
  variable \<^verbatim>\<open>target_label\<close> the label of the discarded request, and a callback still
  waiting from the request before reads that variable when it runs. In the run below
  label 1 asks for the local poster and label 2 for a missing file, in a workspace
  without fallback assets; the worker makes its two passes before the main loop runs
  the callback of the first. The second request resolves to \<^verbatim>\<open>None\<close>, nothing is cached
  for it, and yet its label 2, blank before, ends up showing the poster composited for
  label 1, while label 1 stays blank. Had the callback run between the two passes,
  label 1 would show the poster.
\<close>

theorem absent_request_label_overwritten:
  "fetch_image bare_env (fallback_paths stale_state) ''missing/path.png'' = Inr None
   \<and> shown (labels stale_state 2) = None
   \<and> cache (worker_iter bare_env (worker_iter bare_env stale_state)) ''missing/path.png'' = None
   \<and> labels (worker_iter bare_env (worker_iter bare_env stale_state)) = labels stale_state
   \<and> after_queue (worker_iter bare_env (worker_iter bare_env stale_state)) = 1
   \<and> shown (labels (ui_run (worker_iter bare_env (worker_iter bare_env stale_state))) 2)
       = Some local_surface
   \<and> shown (labels (ui_run (worker_iter bare_env (worker_iter bare_env stale_state))) 1) = None
   \<and> shown (labels (ui_run (worker_iter bare_env stale_state)) 1) = Some local_surface"
  by (simp add: eval_defs)

text \<open>
  C7, as stated, fails: the card grid asks for a poster at 140 x 210 and the details
  window asks for the same poster at 200 x 300 before the first request is done. Both
  are enqueued and both are composited, but the cache entry after the first pass is
  140 x 210 and after the second pass 200 x 300.
\<close>

theorem duplicate_requests_counterexample:
  "request ''http://good/img.jpg'' 1 140 210 demo_state
      = Inr (demo_state\<lparr>queue := [(''http://good/img.jpg'', ''GET'', 140, 210, 1)], unfinished_tasks := 1\<rparr>)
   \<and> request ''http://good/img.jpg'' 2 200 300
        (demo_state\<lparr>queue := [(''http://good/img.jpg'', ''GET'', 140, 210, 1)], unfinished_tasks := 1\<rparr>)
      = Inr twice_state
   \<and> map_option psize (cache (worker_iter demo_env twice_state) ''http://good/img.jpg'') = Some (140, 210)
   \<and> map_option psize (cache done_state ''http://good/img.jpg'') = Some (200, 300)"
  by (simp add: done_state_cache twice_first surface_of_def) (simp add: eval_defs)

text \<open>
  C7, amended. Two requests for a reference that is not in the cache are both enqueued,
  whatever their sizes (the queue does not deduplicate). When the worker reaches them
  in two consecutive passes, with the theme not changed in between, and they carry the
  same target size, and each resolution and each composite succeeds, each pass ends with
  a cache entry for the reference of that size, and the two entries have the same
  background fill.
\<close>

theorem duplicate_requests_same_size:
  "(cache s url = None \<longrightarrow>
      (\<exists>s1 s2. request url l1 w h s = Inr s1 \<and> request url l2 w' h' s1 = Inr s2
         \<and> queue s2 = queue s @ [(url, ''GET'', w, h, l1), (url, ''GET'', w', h', l2)]))
   \<and> (queue t = (url, m1, w, h, l1) # (url, m2, w, h, l2) # rest
        \<and> fetch_image e1 (fallback_paths t) url = Inr (Some img1)
        \<and> composite e1 (theme t) (photo_count t) img1 w h = Inr p1
        \<and> fetch_image e2 (fallback_paths t) url = Inr (Some img2)
        \<and> composite e2 (theme t) (photo_count t + 1) img2 w h = Inr p2 \<longrightarrow>
      cache (worker_iter e1 t) url = Some p1
      \<and> cache (worker_iter e2 (worker_iter e1 t)) url = Some p2
      \<and> psize p1 = (w, h) \<and> psize p2 = (w, h) \<and> fill p1 = fill p2)"
proof (intro conjI impI)
  assume "cache s url = None"
  then show "\<exists>s1 s2. request url l1 w h s = Inr s1 \<and> request url l2 w' h' s1 = Inr s2
         \<and> queue s2 = queue s @ [(url, ''GET'', w, h, l1), (url, ''GET'', w', h', l2)]"
    by (simp add: request_def)
next
  assume a: "queue t = (url, m1, w, h, l1) # (url, m2, w, h, l2) # rest
        \<and> fetch_image e1 (fallback_paths t) url = Inr (Some img1)
        \<and> composite e1 (theme t) (photo_count t) img1 w h = Inr p1
        \<and> fetch_image e2 (fallback_paths t) url = Inr (Some img2)
        \<and> composite e2 (theme t) (photo_count t + 1) img2 w h = Inr p2"
  then have q: "queue t = (url, m1, w, h, l1) # (url, m2, w, h, l2) # rest"
    and f1: "fetch_image e1 (fallback_paths t) url = Inr (Some img1)"
    and c1: "composite e1 (theme t) (photo_count t) img1 w h = Inr p1"
    and f2: "fetch_image e2 (fallback_paths t) url = Inr (Some img2)"
    and c2: "composite e2 (theme t) (photo_count t + 1) img2 w h = Inr p2"
    by simp_all
  note first = worker_iter_success [OF q f1 c1]
  show "cache (worker_iter e1 t) url = Some p1" by (simp add: first)
  have q': "queue (worker_iter e1 t) = (url, m2, w, h, l2) # rest" by (simp add: first)
  have f2': "fetch_image e2 (fallback_paths (worker_iter e1 t)) url = Inr (Some img2)"
    using f2 by (simp add: first)
  have c2': "composite e2 (theme (worker_iter e1 t)) (photo_count (worker_iter e1 t)) img2 w h = Inr p2"
    using c2 by (simp add: first)
  show "cache (worker_iter e2 (worker_iter e1 t)) url = Some p2"
    by (simp add: worker_iter_success(3) [OF q' f2' c2'])
  show "psize p1 = (w, h)" using composite_size_fill [OF c1] by simp
  show "psize p2 = (w, h)" using composite_size_fill [OF c2] by simp
  show "fill p1 = fill p2"
    using composite_size_fill [OF c1] composite_size_fill [OF c2] by auto
qed

theorem duplicate_requests_same_size_witness:
  "cache (worker_iter demo_env same_twice_state) ''http://good/img.jpg'' = Some (surface_of 0 140 210)
   \<and> cache (worker_iter demo_env (worker_iter demo_env same_twice_state)) ''http://good/img.jpg''
       = Some (surface_of 1 140 210)
   \<and> psize (surface_of 0 140 210) = (140, 210) \<and> psize (surface_of 1 140 210) = (140, 210)
   \<and> fill (surface_of 0 140 210) = fill (surface_of 1 140 210)"
proof -
  have "queue same_twice_state = (''http://good/img.jpg'', ''GET'', 140, 210, 1)
          # (''http://good/img.jpg'', ''GET'', 140, 210, 2) # []
        \<and> fetch_image demo_env (fallback_paths same_twice_state) ''http://good/img.jpg''
            = Inr (Some poster)
        \<and> composite demo_env (theme same_twice_state) (photo_count same_twice_state) poster 140 210
            = Inr (surface_of 0 140 210)
        \<and> fetch_image demo_env (fallback_paths same_twice_state) ''http://good/img.jpg''
            = Inr (Some poster)
        \<and> composite demo_env (theme same_twice_state) (photo_count same_twice_state + 1) poster 140 210
            = Inr (surface_of 1 140 210)"
    by (simp add: same_twice_state_def demo_state_fields good_poster composite_poster)
  then show ?thesis
    using duplicate_requests_same_size [THEN conjunct2, rule_format] by blast
qed

text \<open>
  C9. Inserting into the cache is last-write-wins and cannot fail: after a pass in which
  the composite succeeds, the entry for the reference is the photo just made, a fresh
  one, whether or not the reference had an entry; an older entry is no longer returned,
  and the entries of other references are untouched.
\<close>

theorem cache_insert_last_write_wins:
  assumes "queue s = (url, m, width, height, target_label) # rest"
    and "fetch_image e (fallback_paths s) url = Inr (Some img)"
    and "composite e (theme s) (photo_count s) img width height = Inr p"
  shows "cache (worker_iter e s) url = Some p \<and> pid p = photo_count s
     \<and> photo_count (worker_iter e s) = photo_count s + 1
     \<and> (\<forall>k. k \<noteq> url \<longrightarrow> cache (worker_iter e s) k = cache s k)
     \<and> (\<forall>old. cache s url = Some old \<and> pid old < photo_count s \<longrightarrow>
           cache (worker_iter e s) url \<noteq> Some old)"
  using worker_try_success [OF assms] composite_size_fill [OF assms(3)]
  by (auto simp: worker_iter_fields)

theorem cache_insert_last_write_wins_witness:
  "cache (worker_iter demo_env twice_state) ''http://good/img.jpg'' = Some (surface_of 0 140 210)
   \<and> cache (worker_iter demo_env (worker_iter demo_env twice_state)) ''http://good/img.jpg''
       = Some (surface_of 1 200 300)
   \<and> surface_of 1 200 300 \<noteq> surface_of 0 140 210"
proof -
  have q: "queue (worker_iter demo_env twice_state) = [(''http://good/img.jpg'', ''GET'', 200, 300, 2)]"
    by (simp only: twice_first) simp
  have f: "fetch_image demo_env (fallback_paths (worker_iter demo_env twice_state))
      ''http://good/img.jpg'' = Inr (Some poster)"
    by (simp only: twice_first) (simp add: twice_state_def demo_state_fields good_poster)
  have c: "composite demo_env (theme (worker_iter demo_env twice_state))
      (photo_count (worker_iter demo_env twice_state)) poster 200 300 = Inr (surface_of 1 200 300)"
    by (simp only: twice_first) (simp add: twice_state_def demo_state_fields composite_poster)
  have "cache (worker_iter demo_env (worker_iter demo_env twice_state)) ''http://good/img.jpg''
      = Some (surface_of 1 200 300)"
    using cache_insert_last_write_wins [OF q f c] by simp
  moreover have "cache (worker_iter demo_env twice_state) ''http://good/img.jpg''
      = Some (surface_of 0 140 210)"
    by (simp only: twice_first) simp
  moreover have "surface_of 1 200 300 \<noteq> surface_of 0 140 210"
    by (simp add: surface_of_def)
  ultimately show ?thesis by simp
qed

text \<open>
  C10, as stated, fails: after the two passes above the first completed request for the
  poster was 140 x 210, yet a later request for it is served the cached 200 x 300
  surface, that of the second composite.
\<close>

theorem cached_size_counterexample:
  "map_option psize (cache (worker_iter demo_env twice_state) ''http://good/img.jpg'') = Some (140, 210)
   \<and> (case request ''http://good/img.jpg'' 3 140 210 done_state of
         Inl x \<Rightarrow> None
       | Inr s' \<Rightarrow> map_option psize (shown (labels s' 3))) = Some (200, 300)"
  by (simp add: twice_first request_def done_state_cache done_state_labels configure_image_def
      blank_def surface_of_def)

text \<open>
  C10, amended. The cache is keyed by the reference alone: for a cached reference
  \<^verbatim>\<open>request\<close> does the same for every width and height, it shows the cached surface
  and enqueues nothing, so no composite at the new size is made. The surface shown is
  the entry of the most recent completed composite for the reference and has the size
  of that composite, not the size now asked for.
\<close>

theorem cached_surface_ignores_size:
  "(cache s url = Some p \<and> alive (labels s l) \<longrightarrow>
      (\<exists>s'. request url l w h s = Inr s' \<and> request url l w' h' s = Inr s'
         \<and> shown (labels s' l) = Some p
         \<and> cache s' = cache s \<and> queue s' = queue s \<and> photo_count s' = photo_count s))
   \<and> (queue t = (url, m, w0, h0, l0) # rest
        \<and> fetch_image e (fallback_paths t) url = Inr (Some img)
        \<and> composite e (theme t) (photo_count t) img w0 h0 = Inr q
        \<and> alive (labels t l) \<longrightarrow>
      (\<exists>s'. request url l w h (worker_iter e t) = Inr s'
         \<and> shown (labels s' l) = Some q \<and> psize q = (w0, h0)
         \<and> queue s' = rest \<and> photo_count s' = photo_count t + 1))"
proof (intro conjI impI)
  assume "cache s url = Some p \<and> alive (labels s l)"
  then show "\<exists>s'. request url l w h s = Inr s' \<and> request url l w' h' s = Inr s'
         \<and> shown (labels s' l) = Some p
         \<and> cache s' = cache s \<and> queue s' = queue s \<and> photo_count s' = photo_count s"
    by (simp add: request_def configure_image_def)
next
  assume a: "queue t = (url, m, w0, h0, l0) # rest
        \<and> fetch_image e (fallback_paths t) url = Inr (Some img)
        \<and> composite e (theme t) (photo_count t) img w0 h0 = Inr q
        \<and> alive (labels t l)"
  then have qq: "queue t = (url, m, w0, h0, l0) # rest"
    and f: "fetch_image e (fallback_paths t) url = Inr (Some img)"
    and c: "composite e (theme t) (photo_count t) img w0 h0 = Inr q"
    and al: "alive (labels t l)"
    by simp_all
  note it = worker_iter_success [OF qq f c]
  have "psize q = (w0, h0)" using composite_size_fill [OF c] by simp
  then show "\<exists>s'. request url l w h (worker_iter e t) = Inr s'
         \<and> shown (labels s' l) = Some q \<and> psize q = (w0, h0)
         \<and> queue s' = rest \<and> photo_count s' = photo_count t + 1"
    using al by (simp add: request_def configure_image_def it)
qed

theorem cached_surface_ignores_size_witness:
  "(\<exists>s'. request ''http://good/img.jpg'' 3 140 210 done_state = Inr s'
        \<and> request ''http://good/img.jpg'' 3 50 50 done_state = Inr s'
        \<and> shown (labels s' 3) = Some (surface_of 1 200 300))
   \<and> psize (surface_of 1 200 300) = (200, 300)"
  using cached_surface_ignores_size [where s = done_state and url = "''http://good/img.jpg''"
      and p = "surface_of 1 200 300" and l = 3 and w = 140 and h = 210 and w' = 50 and h' = 50
      and t = "worker_iter demo_env twice_state" and e = demo_env and m = "''GET''"
      and ?w0.0 = 200 and ?h0.0 = 300 and ?l0.0 = 2 and rest = "[]" and img = poster
      and q = "surface_of 1 200 300"]
  by (simp add: done_state_cache done_state_labels blank_def request_def configure_image_def
      surface_of_def)

end
